theory Spec2Isabelle
  imports Complex_Main "HOL-Library.Sublist"
begin

section \<open>JavaScript values\<close>

text \<open>
  The values a caller can hand to \<open>solve\<close>: the JSON-like values together with
  \<open>undefined\<close>, \<open>NaN\<close> and the infinities. A number is its real value; an
  object is the list of its own properties, the first binding of a key being the
  property's value. \<open>JTypeError k\<close> is the \<open>TypeError\<close> object that reading the
  property \<open>k\<close> of \<open>undefined\<close> or \<open>null\<close> throws.
\<close>

datatype jsnum = Finite real | PosInfinity | NegInfinity | NaN

datatype jsval =
    JUndefined
  | JNull
  | JBool bool
  | JNum jsnum
  | JStr string
  | JArr "jsval list"
  | JObj "(string \<times> jsval) list"
  | JTypeError string

text \<open>\<open>!v\<close> is \<open>\<not> truthy v\<close>: the falsy values are \<open>undefined\<close>, \<open>null\<close>,
  \<open>false\<close>, \<open>0\<close>, \<open>NaN\<close> and the empty string.\<close>

fun truthy :: "jsval \<Rightarrow> bool" where
  "truthy JUndefined = False"
| "truthy JNull = False"
| "truthy (JBool b) = b"
| "truthy (JNum (Finite r)) = (r \<noteq> 0)"
| "truthy (JNum NaN) = False"
| "truthy (JNum PosInfinity) = True"
| "truthy (JNum NegInfinity) = True"
| "truthy (JStr s) = (s \<noteq> [])"
| "truthy (JArr xs) = True"
| "truthy (JObj ps) = True"
| "truthy (JTypeError k) = True"

text \<open>
  The member expression \<open>v.k\<close>, for the property names the executor reads
  (\<open>external\<close>, \<open>binPath\<close>, \<open>args\<close>, \<open>tempName\<close>: none of them is a built-in
  property of a string, an array, a number or a boolean, so the read yields
  \<open>undefined\<close> there). \<open>Inl\<close> is a thrown value.
\<close>

fun get_prop :: "jsval \<Rightarrow> string \<Rightarrow> jsval + jsval" where
  "get_prop JUndefined k = Inl (JTypeError k)"
| "get_prop JNull k = Inl (JTypeError k)"
| "get_prop (JObj ps) k = Inr (case map_of ps k of None \<Rightarrow> JUndefined | Some v \<Rightarrow> v)"
| "get_prop v k = Inr JUndefined"

section \<open>The Promise and its executor\<close>

datatype promise = Pending | Fulfilled jsval | Rejected jsval

text \<open>
  What the executor of \<open>solve\<close> does is recorded in a log: \<open>Checked k\<close> when the
  condition of the \<open>if\<close> statement testing \<open>k\<close> has been evaluated, \<open>RejCalled v\<close>
  when the callback \<open>rej\<close> has been invoked with \<open>v\<close>.
\<close>

datatype event = Checked string | RejCalled jsval

record exec_state =
  settled :: promise
  log :: "event list"

text \<open>Calling \<open>rej\<close> settles a pending promise; on a settled one it has no effect.\<close>

definition rej :: "jsval \<Rightarrow> exec_state \<Rightarrow> exec_state" where
  "rej v s =
     s\<lparr>settled := (if settled s = Pending then Rejected v else settled s),
       log := log s @ [RejCalled v]\<rparr>"

definition checked :: "string \<Rightarrow> exec_state \<Rightarrow> exec_state" where
  "checked k s = s\<lparr>log := log s @ [Checked k]\<rparr>"

text \<open>A statement maps the state to the new state and the value it threw, if any.\<close>

type_synonym outcome = "exec_state \<times> jsval option"

type_synonym stmt = "exec_state \<Rightarrow> outcome"

fun run_stmts :: "stmt list \<Rightarrow> stmt" where
  "run_stmts [] s = (s, None)"
| "run_stmts (c # cs) s =
     (case c s of
        (s', None) \<Rightarrow> run_stmts cs s'
      | (s', Some e) \<Rightarrow> (s', Some e))"

subsection \<open>The messages\<close>

definition msg_browser :: string where
  "msg_browser = ''Function Not Available in Browser''"

definition msg_external :: string where
  "msg_external =
     ''Data for this function must be contained in the '' @ [CHR 0x27] @ ''external''
     @ [CHR 0x27] @ '' attribute. Not seeing anything there.''"

definition msg_binPath :: string where
  "msg_binPath =
     ''No Executable | Binary path provided in arguments as '' @ [CHR 0x27] @ ''binPath''
     @ [CHR 0x27]"

definition msg_args :: string where
  "msg_args =
     ''No arguments array for cli | bash provided on '' @ [CHR 0x27] @ ''args''
     @ [CHR 0x27] @ '' attribute''"

definition msg_tempName :: string where
  "msg_tempName =
     ''No '' @ [CHR 0x27] @ ''tempName'' @ [CHR 0x27]
     @ '' given. This is necessary to produce a staging file for the solver to operate on''"

subsection \<open>The statements of the executor\<close>

text \<open>\<open>if(typeof window !== "undefined"){ rej(...); }\<close>, the parameter saying whether a
  global \<open>window\<close> exists.\<close>

definition stmt_browser :: "bool \<Rightarrow> stmt" where
  "stmt_browser window_defined s =
     (if window_defined then rej (JStr msg_browser) s else s, None)"

text \<open>
  \<open>var data = require("./Reformat.js")(model);\<close> The module \<open>Reformat.js\<close> is not
  among the sources, so the call is a parameter: it returns the LP text (\<open>Inr\<close>) or
  throws (\<open>Inl\<close>). The executor never reads \<open>data\<close> again.
\<close>

definition stmt_convert :: "(jsval \<Rightarrow> jsval + jsval) \<Rightarrow> jsval \<Rightarrow> stmt" where
  "stmt_convert reformat model s =
     (case reformat model of
        Inl e \<Rightarrow> (s, Some e)
      | Inr data \<Rightarrow> (s, None))"

text \<open>\<open>if(!model.external){ rej(...); }\<close>\<close>

definition stmt_external :: "jsval \<Rightarrow> stmt" where
  "stmt_external model s =
     (case get_prop model ''external'' of
        Inl e \<Rightarrow> (s, Some e)
      | Inr ext \<Rightarrow>
          (if \<not> truthy ext then rej (JStr msg_external) (checked ''external'' s)
           else checked ''external'' s, None))"

text \<open>\<open>if(!model.external.k){ rej(msg); }\<close> for \<open>k\<close> one of \<open>binPath\<close>, \<open>args\<close>,
  \<open>tempName\<close>.\<close>

definition stmt_field :: "string \<Rightarrow> string \<Rightarrow> jsval \<Rightarrow> stmt" where
  "stmt_field k msg model s =
     (case get_prop model ''external'' of
        Inl e \<Rightarrow> (s, Some e)
      | Inr ext \<Rightarrow>
          (case get_prop ext k of
             Inl e \<Rightarrow> (s, Some e)
           | Inr v \<Rightarrow>
               (if \<not> truthy v then rej (JStr msg) (checked k s)
                else checked k s, None)))"

definition executor :: "(jsval \<Rightarrow> jsval + jsval) \<Rightarrow> bool \<Rightarrow> jsval \<Rightarrow> stmt" where
  "executor reformat window_defined model =
     run_stmts
       [stmt_browser window_defined,
        stmt_convert reformat model,
        stmt_external model,
        stmt_field ''binPath'' msg_binPath model,
        stmt_field ''args'' msg_args model,
        stmt_field ''tempName'' msg_tempName model]"

text \<open>The first state of the executor: a pending promise and an empty log.\<close>

definition fresh :: exec_state where
  "fresh = \<lparr>settled = Pending, log = []\<rparr>"

text \<open>
  \<open>new Promise(executor)\<close> runs the executor at once on a pending promise; a value the
  executor throws rejects the promise if it is still pending.
\<close>

definition new_Promise :: "stmt \<Rightarrow> exec_state" where
  "new_Promise ex =
     (case ex fresh of
        (s, None) \<Rightarrow> s
      | (s, Some e) \<Rightarrow>
          s\<lparr>settled := (if settled s = Pending then Rejected e else settled s)\<rparr>)"

definition solve :: "(jsval \<Rightarrow> jsval + jsval) \<Rightarrow> bool \<Rightarrow> jsval \<Rightarrow> exec_state" where
  "solve reformat window_defined model = new_Promise (executor reformat window_defined model)"

text \<open>The \<open>external\<close> value the source documents in its closing comment.\<close>

definition documented_external :: jsval where
  "documented_external =
     JObj [(''binPath'', JStr ''C:/lpsolve/lp_solve.exe''),
           (''tempName'', JStr ''C:/temp/out.txt''),
           (''args'', JArr [JStr ''-S2''])]"

text \<open>What a check adds to the log after its \<open>Checked\<close> entry: the call of \<open>rej\<close> when
  the tested value is falsy.\<close>

definition violation :: "jsval \<Rightarrow> string \<Rightarrow> event list" where
  "violation v msg = (if truthy v then [] else [RejCalled (JStr msg)])"

definition messages :: "jsval set" where
  "messages =
     {JStr msg_browser, JStr msg_external, JStr msg_binPath, JStr msg_args, JStr msg_tempName}"

text \<open>
  The error value of the specification, for comparison with the values the source
  rejects with: an object whose \<open>stage\<close> is \<open>Write\<close>, \<open>Spawn\<close> or \<open>Parse\<close> and which
  has a \<open>detail\<close>.
\<close>

definition spec_ExternalError :: "jsval \<Rightarrow> bool" where
  "spec_ExternalError v =
     (case v of
        JObj ps \<Rightarrow>
          (case map_of ps ''stage'' of
             Some st \<Rightarrow>
               st \<in> {JStr ''Write'', JStr ''Spawn'', JStr ''Parse''} \<and> map_of ps ''detail'' \<noteq> None
           | None \<Rightarrow> False)
      | _ \<Rightarrow> False)"

text \<open>Example models: a small model with a given \<open>external\<close>, and one without.\<close>

definition model_with :: "jsval \<Rightarrow> jsval" where
  "model_with ext =
     JObj [(''optimize'', JStr ''profit''), (''opType'', JStr ''max''),
           (''constraints'', JObj []), (''variables'', JObj []), (''external'', ext)]"

definition model_without_external :: jsval where
  "model_without_external =
     JObj [(''optimize'', JStr ''profit''), (''opType'', JStr ''max''),
           (''constraints'', JObj []), (''variables'', JObj [])]"

section \<open>Regular expressions\<close>

text \<open>
  The regular expressions of \<open>clean_data\<close> are built from a literal character,
  \<open>\d\<close>, concatenation, \<open>{0,1}\<close>, \<open>*\<close>, the lookahead \<open>(?=...)\<close> and \<open>$\<close>
  (no \<open>m\<close> flag: the end of the input only). \<open>r+\<close> is \<open>r\<close> followed by \<open>r*\<close>.
\<close>

datatype rx = Lit char | Digit | Cat rx rx | Opt rx | Star rx | Ahead rx | End

definition Plus :: "rx \<Rightarrow> rx" where
  "Plus r = Cat r (Star r)"

definition is_digit :: "char \<Rightarrow> bool" where
  "is_digit c = (c \<in> set ''0123456789'')"

text \<open>
  The backtracking matcher: \<open>rx_match r s\<close> lists, in the order backtracking tries
  them, what is left of \<open>s\<close> after each way \<open>r\<close> matches at its start. The quantifiers
  are greedy, and an iteration that consumes nothing is not repeated.
\<close>

fun rx_match :: "rx \<Rightarrow> string \<Rightarrow> string list" where
  "rx_match (Lit c) s = (case s of [] \<Rightarrow> [] | x # xs \<Rightarrow> if x = c then [xs] else [])"
| "rx_match Digit s = (case s of [] \<Rightarrow> [] | x # xs \<Rightarrow> if is_digit x then [xs] else [])"
| "rx_match (Cat a b) s = concat (map (rx_match b) (rx_match a s))"
| "rx_match (Opt a) s = filter (\<lambda>r. length r < length s) (rx_match a s) @ [s]"
| "rx_match (Star a) s =
     concat (map (\<lambda>r. if length r < length s then rx_match (Star a) r else [])
       (rx_match a s)) @ [s]"
| "rx_match (Ahead a) s = (if rx_match a s = [] then [] else [s])"
| "rx_match End s = (if s = [] then [s] else [])"

text \<open>\<open>rx.test(x)\<close> on a fresh expression: a match is tried at every position of \<open>x\<close>,
  the end included.\<close>

fun rx_test :: "rx \<Rightarrow> string \<Rightarrow> bool" where
  "rx_test r [] = (rx_match r [] \<noteq> [])"
| "rx_test r (c # cs) = (rx_match r (c # cs) \<noteq> [] \<or> rx_test r cs)"

text \<open>
  \<open>x.split(rx)\<close>: the loop over the positions \<open>q\<close> of \<open>x\<close>, \<open>cur\<close> being the text since
  the last split point \<open>p\<close>. A match at \<open>q\<close> that ends at \<open>p\<close> (an empty match right
  after a split) is skipped; any other match closes the piece \<open>cur\<close> and moves \<open>p\<close> and
  \<open>q\<close> to its end. The empty input gives no piece when the expression matches it, and
  the one empty piece otherwise.
\<close>

fun rx_split :: "rx \<Rightarrow> string \<Rightarrow> string \<Rightarrow> string list" where
  "rx_split r cur [] = [cur]"
| "rx_split r cur (c # cs) =
     (case rx_match r (c # cs) of
        [] \<Rightarrow> rx_split r (cur @ [c]) cs
      | rest # others \<Rightarrow>
          if length rest < length (c # cs) then cur # rx_split r [] rest
          else if cur = [] then rx_split r [c] cs
          else cur # rx_split r [c] cs)"

definition js_split :: "rx \<Rightarrow> string \<Rightarrow> string list" where
  "js_split r x =
     (if x = [] then (if rx_match r [] \<noteq> [] then [] else [[]]) else rx_split r [] x)"

section \<open>String operations\<close>

text \<open>A string is the list of its characters. None of the operations below looks
  inside a character, apart from comparing it with the ones the source names.\<close>

text \<open>\<open>s.replace(pat, rep)\<close> with a string pattern: the first occurrence only.\<close>

fun replace_first :: "string \<Rightarrow> string \<Rightarrow> string \<Rightarrow> string" where
  "replace_first pat rep [] = (if pat = [] then rep else [])"
| "replace_first pat rep (c # cs) =
     (if prefix pat (c # cs) then rep @ drop (length pat) (c # cs)
      else c # replace_first pat rep cs)"

text \<open>\<open>s.split(sep)\<close> with a non-empty string separator.\<close>

fun split_on :: "string \<Rightarrow> string \<Rightarrow> string \<Rightarrow> string list" where
  "split_on sep cur [] = [cur]"
| "split_on sep cur (c # cs) =
     (if prefix sep (c # cs) then cur # split_on sep [] (drop (length sep - 1) cs)
      else split_on sep (cur @ [c]) cs)"

text \<open>\<open>xs.join(sep)\<close>, to say what the pieces of a split add up to.\<close>

fun join_with :: "string \<Rightarrow> string list \<Rightarrow> string" where
  "join_with sep [] = []"
| "join_with sep [x] = x"
| "join_with sep (x # y # ys) = x @ sep @ join_with sep (y # ys)"

definition crlf :: string where
  "crlf = [CHR 0x0D, CHR 0x0A]"

text \<open>The string literal \<open>"\\r\\n"\<close>: a backslash, \<open>r\<close>, a backslash, \<open>n\<close>.\<close>

definition escaped_crlf :: string where
  "escaped_crlf = [CHR 0x5C, CHR ''r'', CHR 0x5C, CHR ''n'']"

section \<open>\<open>clean_data\<close>\<close>

text \<open>\<open>new RegExp(" 0$","gi")\<close>, \<open>new RegExp("\\d$","gi")\<close> and \<open>/\:{0,1} +(?=\d)/\<close>.
  No letter occurs in them, so the \<open>i\<close> flag changes nothing.\<close>

definition rx_test1 :: rx where
  "rx_test1 = Cat (Lit CHR '' '') (Cat (Lit CHR ''0'') End)"

definition rx_test2 :: rx where
  "rx_test2 = Cat Digit End"

definition rx_separator :: rx where
  "rx_separator = Cat (Opt (Lit CHR '':'')) (Cat (Plus (Lit CHR '' '')) (Ahead Digit))"

text \<open>The callback of \<open>filter\<close>.\<close>

definition keep_line :: "string \<Rightarrow> bool" where
  "keep_line x =
     (if rx_test rx_test1 x = True then False
      else if rx_test rx_test2 x = False then False
      else True)"

text \<open>
  The object under construction is the list of its properties. \<open>o[k] = v\<close> creates or
  overwrites the property \<open>k\<close>, except for the key \<open>__proto__\<close>: that is the accessor
  of \<open>Object.prototype\<close>, whose setter ignores a value that is neither an object nor
  \<open>null\<close>, and \<open>clean_data\<close> only assigns strings and \<open>undefined\<close>.
\<close>

fun set_prop :: "(string \<times> jsval) list \<Rightarrow> string \<Rightarrow> jsval \<Rightarrow> (string \<times> jsval) list" where
  "set_prop [] k v = [(k, v)]"
| "set_prop ((k', v') # ps) k v =
     (if k' = k then (k, v) # ps else (k', v') # set_prop ps k v)"

definition assign :: "(string \<times> jsval) list \<Rightarrow> string \<Rightarrow> jsval \<Rightarrow> (string \<times> jsval) list" where
  "assign ob k v = (if k = ''__proto__'' then ob else set_prop ob k v)"

text \<open>\<open>k[i]\<close> on the array of pieces is \<open>undefined\<close> past its end, and \<open>undefined\<close> as a
  property key is the string \<open>"undefined"\<close>.\<close>

definition piece :: "string list \<Rightarrow> nat \<Rightarrow> jsval" where
  "piece k i = (if i < length k then JStr (k ! i) else JUndefined)"

fun to_key :: "jsval \<Rightarrow> string" where
  "to_key (JStr s) = s"
| "to_key v = ''undefined''"

text \<open>The callback of \<open>reduce\<close>: \<open>o[k[0]] = k[1]; return o;\<close>\<close>

definition reduce_step :: "(string \<times> jsval) list \<Rightarrow> string list \<Rightarrow> (string \<times> jsval) list" where
  "reduce_step ob k = assign ob (to_key (piece k 0)) (piece k 1)"

definition data_lines :: "string \<Rightarrow> string list" where
  "data_lines data = split_on crlf [] (replace_first escaped_crlf crlf data)"

definition clean_data :: "string \<Rightarrow> (string \<times> jsval) list" where
  "clean_data data =
     foldl reduce_step []
       (map (js_split rx_separator) (filter keep_line (data_lines data)))"

subsection \<open>The entries of \<open>clean_data\<close>, line by line\<close>

text \<open>
  A description of the result without the matcher. \<open>spaces_then_digit t\<close> is what follows
  a run of spaces at the start of \<open>t\<close>, when a digit follows the run; a separator at the
  start of \<open>s\<close> is such a run, after a colon or not, and \<open>sep_after s\<close> is the text after
  it. \<open>first_sep cur s\<close> finds the first separator of \<open>s\<close>: the text before it (after
  \<open>cur\<close>) and the text after it.
\<close>

definition spaces_then_digit :: "string \<Rightarrow> string option" where
  "spaces_then_digit t =
     (case t of
        [] \<Rightarrow> None
      | c # cs \<Rightarrow>
          if c = CHR '' '' then
            (case dropWhile (\<lambda>x. x = CHR '' '') cs of
               [] \<Rightarrow> None
             | d # ds \<Rightarrow> if is_digit d then Some (d # ds) else None)
          else None)"

definition sep_after :: "string \<Rightarrow> string option" where
  "sep_after s =
     (case s of
        [] \<Rightarrow> None
      | c # cs \<Rightarrow> if c = CHR '':'' then spaces_then_digit cs else spaces_then_digit s)"

fun first_sep :: "string \<Rightarrow> string \<Rightarrow> (string \<times> string) option" where
  "first_sep cur [] = None"
| "first_sep cur (c # cs) =
     (case sep_after (c # cs) of
        Some rest \<Rightarrow> Some (cur, rest)
      | None \<Rightarrow> first_sep (cur @ [c]) cs)"

text \<open>
  The key and the value a line contributes: the key is the text before the first
  separator and the value the text from there to the next separator; a line without a
  separator is its own key, with the value \<open>undefined\<close>.
\<close>

definition line_entry :: "string \<Rightarrow> string \<times> jsval" where
  "line_entry l =
     (case first_sep [] l of
        None \<Rightarrow> (l, JUndefined)
      | Some (a, b) \<Rightarrow>
          (a, JStr (case first_sep [] b of None \<Rightarrow> b | Some (b1, b2) \<Rightarrow> b1)))"

text \<open>A line survives the filter when it does not end with a space and a zero, and its
  last character is a decimal digit.\<close>

definition line_kept :: "string \<Rightarrow> bool" where
  "line_kept l = (\<not> suffix '' 0'' l \<and> l \<noteq> [] \<and> is_digit (last l))"

text \<open>The split as the specification words it, for comparison: one split, at the first
  separator, the value being all of the text after it.\<close>

definition spec_line_entry :: "string \<Rightarrow> (string \<times> jsval) option" where
  "spec_line_entry l =
     (case first_sep [] l of None \<Rightarrow> None | Some (a, b) \<Rightarrow> Some (a, JStr b))"

section \<open>The declared interface\<close>

text \<open>
  The types of \<open>main.d.ts\<close>. An optional property is an \<open>option\<close>; an object indexed
  by variable names is the list of its properties, each name once; a number is a real;
  \<open>boolean | 0 | 1\<close> is a \<open>bool\<close>. The fields \<open>min\<close>, \<open>max\<close> and \<open>equal\<close> carry a suffix.
\<close>

record IModelVariableConstraint =
  min_c :: "real option"
  max_c :: "real option"
  equal_c :: "real option"

record IModelOptions =
  tolerance :: "real option"
  timeout :: "real option"
  useMIRCuts :: "bool option"
  exitOnCycles :: "bool option"

datatype op_type = OpMax | OpMin

record IModel =
  optimize :: string
  opType :: op_type
  constraints :: "(string \<times> IModelVariableConstraint) list"
  variables :: "(string \<times> (string \<times> real) list) list"
  ints :: "(string \<times> bool) list option"
  binaries :: "(string \<times> bool) list option"
  unrestricted :: "(string \<times> bool) list option"
  options :: "IModelOptions option"

record ISolutionStatus =
  feasible :: bool
  result :: real
  bounded :: "bool option"
  isIntegral :: "bool option"

text \<open>\<open>Solution\<close> is the status together with an optional number for each solution
  variable: the variable entries.\<close>

record Solution = ISolutionStatus +
  entries :: "(string \<times> real) list"

text \<open>A small model, for examples: maximise \<open>x\<close> under \<open>x \<le> 6\<close>, with a second
  solution variable \<open>y\<close>.\<close>

definition small_model :: IModel where
  "small_model =
     \<lparr>optimize = ''x'', opType = OpMax,
      constraints = [(''x'', \<lparr>min_c = None, max_c = Some 6, equal_c = None\<rparr>)],
      variables = [(''x'', [(''x'', 1)]), (''y'', [(''y'', 1)])],
      ints = None, binaries = None, unrestricted = None, options = None\<rparr>"

section \<open>\<open>Solve\<close>, from the specification\<close>

text \<open>
  Modelled from the spec: the outcomes of the engine (section 4.3, Results). The
  engine itself (preprocessor, simplex, branch and bound) is not among the sources,
  which only declare \<open>Solve\<close>; it is a parameter below.
\<close>

datatype engine_status = Optimal | Unbounded | Infeasible | CycleDetected | TimedOut

text \<open>Modelled from the spec: what the engine hands to the assembler (section 4.5), the
  status, the value \<open>x_std\<close> of each internal variable and the objective \<open>z\<close> it
  minimised.\<close>

record engine_result =
  status :: engine_status
  x_std :: "string \<Rightarrow> real"
  z :: real

text \<open>Modelled from the spec: the kinds of \<open>ValidationError\<close> (section 6).\<close>

datatype validation_kind =
  MissingObjective | UnknownVariable | ConflictingDomain | MalformedConstraint

text \<open>Modelled from the spec: the errors raised to the caller (section 7), a
  \<open>ParseError\<close> with its line, column and expectation, and a \<open>ValidationError\<close>.\<close>

datatype solve_error = ParseError nat nat string | ValidationError validation_kind

text \<open>Modelled from the spec: the value of a declared solution variable, the sum of
  \<open>coeff * x_std[internal]\<close> over its linear combination (section 4.5).\<close>

definition assembled_value :: "(string \<Rightarrow> real) \<Rightarrow> (string \<times> real) list \<Rightarrow> real" where
  "assembled_value x combo = sum_list (map (\<lambda>(internal, coeff). coeff * x internal) combo)"

text \<open>Modelled from the spec: a zero-valued variable is one the assembler would drop
  (section 2), its magnitude not exceeding \<open>precision\<close>.\<close>

definition zero_valued :: "real \<Rightarrow> real \<Rightarrow> bool" where
  "zero_valued precision a = (\<not> precision < \<bar>a\<bar>)"

text \<open>Modelled from the spec: an entry is included when its magnitude exceeds
  \<open>precision\<close> (section 4.5), and, when \<open>full\<close> is true, also when it is zero-valued
  (section 6).\<close>

definition included :: "real \<Rightarrow> bool \<Rightarrow> real \<Rightarrow> bool" where
  "included precision full a = (precision < \<bar>a\<bar> \<or> (full \<and> zero_valued precision a))"

text \<open>Modelled from the spec: the variable entries of the output (section 4.5).\<close>

definition variable_entries ::
  "real \<Rightarrow> bool \<Rightarrow> (string \<Rightarrow> real) \<Rightarrow> (string \<times> (string \<times> real) list) list \<Rightarrow>
   (string \<times> real) list" where
  "variable_entries precision full x vars =
     map (\<lambda>(v, combo). (v, assembled_value x combo))
       (filter (\<lambda>(v, combo). included precision full (assembled_value x combo)) vars)"

text \<open>Modelled from the spec: the integer variables of a model, those flagged in \<open>ints\<close>
  or \<open>binaries\<close> (section 4.2).\<close>

definition integer_variables :: "IModel \<Rightarrow> string list" where
  "integer_variables m =
     map fst (filter snd ((case ints m of None \<Rightarrow> [] | Some fs \<Rightarrow> fs) @
                          (case binaries m of None \<Rightarrow> [] | Some fs \<Rightarrow> fs)))"

text \<open>Modelled from the spec: a value is integral when it is within \<open>precision\<close> of an
  integer (section 4.4).\<close>

definition near_integer :: "real \<Rightarrow> real \<Rightarrow> bool" where
  "near_integer precision a = (\<bar>a - of_int (round a)\<bar> \<le> precision)"

text \<open>
  Modelled from the spec: the solution assembler (section 4.5). \<open>feasible\<close> is true
  unless Infeasible; \<open>result\<close> is the objective in the user's sign convention;
  \<open>bounded\<close> is false iff Unbounded; \<open>isIntegral\<close> is given for a MILP only.
\<close>

definition assemble :: "IModel \<Rightarrow> real \<Rightarrow> bool \<Rightarrow> engine_result \<Rightarrow> Solution" where
  "assemble m precision full r =
     \<lparr>feasible = (status r \<noteq> Infeasible),
      result = (if opType m = OpMax then - z r else z r),
      bounded = Some (status r \<noteq> Unbounded),
      isIntegral =
        (if integer_variables m = [] then None
         else Some (list_all (\<lambda>v. near_integer precision (x_std r v)) (integer_variables m))),
      entries = variable_entries precision full (x_std r) (variables m)\<rparr>"

text \<open>Modelled from the spec: the process-wide state, which holds \<open>lastSolvedModel\<close>
  (section 6). The sources only declare the constant.\<close>

record solver_state =
  lastSolvedModel :: IModel

text \<open>
  Modelled from the spec: \<open>Solve(model, precision, full, validate)\<close> (sections 6 and 7).
  When \<open>validate\<close> is truthy the validations run first, and an error they report is
  raised, the state untouched. Otherwise the engine solves the model, the assembler
  builds the Solution, and \<open>lastSolvedModel\<close> becomes the input model. The validations
  and the engine are parameters; the optional arguments are given (an omitted
  \<open>precision\<close> is \<open>1e-9\<close>, an omitted flag is false).
\<close>

definition Solve ::
  "(IModel \<Rightarrow> solve_error option) \<Rightarrow> (IModel \<Rightarrow> real \<Rightarrow> engine_result) \<Rightarrow>
   IModel \<Rightarrow> real \<Rightarrow> bool \<Rightarrow> bool \<Rightarrow> solver_state \<Rightarrow>
   (solve_error + Solution) \<times> solver_state" where
  "Solve validations engine model precision full validate st =
     (case (if validate then validations model else None) of
        Some err \<Rightarrow> (Inl err, st)
      | None \<Rightarrow>
          (Inr (assemble model precision full (engine model precision)),
           st\<lparr>lastSolvedModel := model\<rparr>))"

text \<open>An engine and a state, for examples: the engine reports \<open>x = 6\<close> and every other
  variable at zero.\<close>

definition small_engine :: "IModel \<Rightarrow> real \<Rightarrow> engine_result" where
  "small_engine m precision =
     \<lparr>status = Optimal, x_std = (\<lambda>v. if v = ''x'' then 6 else 0), z = - 6\<rparr>"

definition earlier_state :: solver_state where
  "earlier_state = \<lparr>lastSolvedModel = small_model\<lparr>optimize := ''y''\<rparr>\<rparr>"

section \<open>Properties of \<open>solve\<close>\<close>

lemmas stmt_defs =
  stmt_browser_def stmt_convert_def stmt_external_def stmt_field_def rej_def checked_def

lemmas solve_defs = solve_def new_Promise_def fresh_def executor_def

lemma get_prop_throws:
  "(get_prop x k = Inl v) = ((x = JUndefined \<or> x = JNull) \<and> v = JTypeError k)"
  by (cases x) auto

text \<open>
  C1. With a truthy \<open>binPath\<close>, \<open>args\<close> and \<open>tempName\<close> and no \<open>window\<close>, \<open>solve\<close> is
  to write the LP text, run the solver and settle the promise with the parsed output.
  The executor does none of that: once the conversion has returned it runs its four
  checks and ends. \<open>rej\<close> is never called, nothing fulfils the promise, and it stays
  pending, whatever text the conversion returned.
\<close>

theorem solve_complete_external_stays_pending:
  assumes "reformat model = Inr data"
    and "get_prop model ''external'' = Inr ext" and "truthy ext"
    and "get_prop ext ''binPath'' = Inr b" and "truthy b"
    and "get_prop ext ''args'' = Inr a" and "truthy a"
    and "get_prop ext ''tempName'' = Inr t" and "truthy t"
  shows "solve reformat False model =
     \<lparr>settled = Pending,
      log = [Checked ''external'', Checked ''binPath'', Checked ''args'', Checked ''tempName'']\<rparr>"
  using assms by (simp add: solve_defs stmt_defs)

text \<open>The \<open>external\<close> value the source documents is such an input.\<close>

theorem solve_complete_external_stays_pending_witness:
  "get_prop (model_with documented_external) ''external'' = Inr documented_external \<and>
   truthy (JStr ''C:/lpsolve/lp_solve.exe'') \<and> truthy (JArr [JStr ''-S2'']) \<and>
   truthy (JStr ''C:/temp/out.txt'') \<and>
   solve (\<lambda>m. Inr (JStr ''max: ;'')) False (model_with documented_external) =
     \<lparr>settled = Pending,
      log = [Checked ''external'', Checked ''binPath'', Checked ''args'', Checked ''tempName'']\<rparr>"
  using solve_complete_external_stays_pending
    [where reformat = "\<lambda>m. Inr (JStr ''max: ;'')" and model = "model_with documented_external"
       and data = "JStr ''max: ;''" and ext = documented_external
       and b = "JStr ''C:/lpsolve/lp_solve.exe''" and a = "JArr [JStr ''-S2'']"
       and t = "JStr ''C:/temp/out.txt''"]
  by (simp add: model_with_def documented_external_def)

text \<open>On no input at all does \<open>solve\<close> fulfil its promise: the executor never calls
  \<open>res\<close>.\<close>

lemma solve_never_fulfils: "settled (solve reformat w model) \<noteq> Fulfilled v"
  by (simp add: solve_defs stmt_defs split: sum.splits)

text \<open>
  C2 (as amended). Let the conversion return and \<open>model.external\<close> be read as \<open>ext\<close>. If
  \<open>ext\<close> is falsy, \<open>rej\<close> is called with the message for \<open>external\<close>. If the three
  fields of \<open>ext\<close> can be read (\<open>ext\<close> is neither \<open>undefined\<close> nor \<open>null\<close>), the
  executor runs to its end without throwing, every check is executed in order, and
  \<open>rej\<close> is called once for each falsy value, also after an earlier call.
\<close>

theorem solve_rejects_and_continues:
  assumes "reformat model = Inr data" and "get_prop model ''external'' = Inr ext"
  shows
    "(\<not> truthy ext \<longrightarrow> RejCalled (JStr msg_external) \<in> set (log (solve reformat w model))) \<and>
     (get_prop ext ''binPath'' = Inr b \<and> get_prop ext ''args'' = Inr a \<and>
      get_prop ext ''tempName'' = Inr t \<longrightarrow>
        snd (executor reformat w model fresh) = None \<and>
        log (solve reformat w model) =
          (if w then [RejCalled (JStr msg_browser)] else []) @
          Checked ''external'' # violation ext msg_external @
          Checked ''binPath'' # violation b msg_binPath @
          Checked ''args'' # violation a msg_args @
          Checked ''tempName'' # violation t msg_tempName)"
  using assms
  by (simp add: solve_defs stmt_defs violation_def split: sum.splits)

text \<open>An \<open>external\<close> with only \<open>tempName\<close>: both missing fields are reported, and the
  check of \<open>tempName\<close> still runs.\<close>

theorem solve_rejects_and_continues_witness:
  "get_prop (model_with (JObj [(''tempName'', JStr ''C:/temp/out.txt'')])) ''external'' =
     Inr (JObj [(''tempName'', JStr ''C:/temp/out.txt'')]) \<and>
   snd (executor (\<lambda>m. Inr (JStr ''max: ;'')) False
          (model_with (JObj [(''tempName'', JStr ''C:/temp/out.txt'')])) fresh) = None \<and>
   log (solve (\<lambda>m. Inr (JStr ''max: ;'')) False
          (model_with (JObj [(''tempName'', JStr ''C:/temp/out.txt'')]))) =
     [Checked ''external'',
      Checked ''binPath'', RejCalled (JStr msg_binPath),
      Checked ''args'', RejCalled (JStr msg_args),
      Checked ''tempName'']"
  using solve_rejects_and_continues
    [where reformat = "\<lambda>m. Inr (JStr ''max: ;'')"
       and model = "model_with (JObj [(''tempName'', JStr ''C:/temp/out.txt'')])"
       and data = "JStr ''max: ;''"
       and ext = "JObj [(''tempName'', JStr ''C:/temp/out.txt'')]"
       and b = JUndefined and a = JUndefined and t = "JStr ''C:/temp/out.txt''"
       and w = False]
  by (simp add: model_with_def violation_def)

text \<open>
  C2 as stated fails when \<open>model.external\<close> itself is missing: \<open>rej\<close> is called for it,
  then reading \<open>binPath\<close> of \<open>undefined\<close> throws, and the checks of \<open>args\<close> and
  \<open>tempName\<close> are never executed.
\<close>

theorem solve_missing_external_counterexample:
  "log (solve (\<lambda>m. Inr (JStr ''max: ;'')) False model_without_external) =
     [Checked ''external'', RejCalled (JStr msg_external)] \<and>
   snd (executor (\<lambda>m. Inr (JStr ''max: ;'')) False model_without_external fresh) =
     Some (JTypeError ''binPath'') \<and>
   Checked ''args'' \<notin> set (log (solve (\<lambda>m. Inr (JStr ''max: ;'')) False model_without_external)) \<and>
   Checked ''tempName'' \<notin>
     set (log (solve (\<lambda>m. Inr (JStr ''max: ;'')) False model_without_external))"
  by (simp add: solve_defs stmt_defs model_without_external_def)

lemma message_not_ExternalError: "v \<in> messages \<Longrightarrow> \<not> spec_ExternalError v"
  by (auto simp: messages_def spec_ExternalError_def)

lemma rej_calls_are_messages:
  "RejCalled v \<in> set (log (solve reformat w model)) \<Longrightarrow> v \<in> messages"
  by (auto simp: solve_defs stmt_defs messages_def split: sum.splits if_splits)

lemma rejection_reasons:
  "settled (solve reformat w model) = Rejected v \<Longrightarrow>
     v \<in> messages \<or> v = JTypeError ''external'' \<or> reformat model = Inl v"
  by (auto simp: solve_defs stmt_defs messages_def get_prop_throws
      split: sum.splits if_splits)

text \<open>
  C3 (as amended). Every value \<open>solve\<close> passes to \<open>rej\<close> is one of its five message
  strings, none of them an \<open>ExternalError\<close> with a \<open>stage\<close> and a \<open>detail\<close>; and when
  the promise is rejected, the reason is one of these strings, or
  the \<open>TypeError\<close> of reading \<open>external\<close> from a model that is \<open>undefined\<close> or \<open>null\<close>,
  or the value the conversion threw.
\<close>

theorem solve_rejects_with_messages:
  "(RejCalled v \<in> set (log (solve reformat w model)) \<longrightarrow>
      v \<in> messages \<and> \<not> spec_ExternalError v) \<and>
   (settled (solve reformat w model) = Rejected v \<longrightarrow>
      v \<in> messages \<or> v = JTypeError ''external'' \<or> reformat model = Inl v)"
  using rej_calls_are_messages[of v reformat w model] rejection_reasons[of reformat w model v]
    message_not_ExternalError[of v]
  by blast

theorem solve_rejects_with_messages_witness:
  "RejCalled (JStr msg_binPath) \<in>
     set (log (solve (\<lambda>m. Inr (JStr ''max: ;'')) False (model_with (JObj [])))) \<and>
   settled (solve (\<lambda>m. Inr (JStr ''max: ;'')) False (model_with (JObj []))) =
     Rejected (JStr msg_binPath) \<and>
   JStr msg_binPath \<in> messages"
  using solve_rejects_with_messages
    [where v = "JStr msg_binPath" and reformat = "\<lambda>m. Inr (JStr ''max: ;'')"
       and w = False and model = "model_with (JObj [])"]
  by (simp add: solve_defs stmt_defs model_with_def)

text \<open>C3 as stated fails: with \<open>binPath\<close> missing the promise is rejected with a plain
  string, which has no \<open>stage\<close> and no \<open>detail\<close>.\<close>

theorem solve_error_is_string_counterexample:
  "settled (solve (\<lambda>m. Inr (JStr ''max: ;'')) False (model_with (JObj []))) =
     Rejected (JStr msg_binPath) \<and>
   \<not> spec_ExternalError (JStr msg_binPath)"
  by (simp add: solve_defs stmt_defs model_with_def spec_ExternalError_def)

text \<open>
  C9. When a global \<open>window\<close> is defined, the promise \<open>solve\<close> returns is rejected with
  the string "Function Not Available in Browser", for every model and whatever the
  conversion does: the first statement of the executor rejects, and nothing after it
  can settle the promise again.
\<close>

theorem solve_in_browser_rejects:
  "settled (solve reformat True model) = Rejected (JStr ''Function Not Available in Browser'')"
  by (simp add: solve_defs stmt_defs msg_browser_def split: sum.splits)

section \<open>Properties of \<open>clean_data\<close>\<close>

subsection \<open>The two tests of the filter\<close>

lemma rx_test_suffix: "rx_test r x = (\<exists>t. suffix t x \<and> rx_match r t \<noteq> [])"
  by (induction x) (auto simp: suffix_Cons)

lemma match_test1: "(rx_match rx_test1 t \<noteq> []) = (t = '' 0'')"
  by (auto simp: rx_test1_def split: list.splits if_splits)

lemma match_test2: "(rx_match rx_test2 t \<noteq> []) = (\<exists>c. t = [c] \<and> is_digit c)"
  by (auto simp: rx_test2_def split: list.splits if_splits)

lemma test1_suffix: "rx_test rx_test1 x = suffix '' 0'' x"
  by (simp add: rx_test_suffix match_test1)

lemma suffix_single: "suffix [c] x = (x \<noteq> [] \<and> last x = c)"
  by (cases x rule: rev_cases) (auto simp: suffix_def)

lemma test2_last: "rx_test rx_test2 x = (x \<noteq> [] \<and> is_digit (last x))"
proof -
  have "rx_test rx_test2 x = (\<exists>c. suffix [c] x \<and> is_digit c)"
    unfolding rx_test_suffix match_test2 by blast
  then show ?thesis by (simp add: suffix_single)
qed

lemma keep_line_iff: "keep_line x = line_kept x"
  by (simp add: keep_line_def line_kept_def test1_suffix test2_last)

lemma filter_keep: "filter keep_line ls = filter line_kept ls"
  by (simp add: keep_line_iff cong: filter_cong)

subsection \<open>The separator\<close>

lemma star_lit_Nil: "rx_match (Star (Lit c)) [] = [[]]"
  by simp

lemma star_lit_Cons:
  "rx_match (Star (Lit c)) (x # xs) =
     (if x = c then rx_match (Star (Lit c)) xs else []) @ [x # xs]"
  by simp

text \<open>Of the ways a run of \<open>c\<close> can be cut short, only the full run can be followed by
  a digit.\<close>

lemma spaces_digit:
  "\<not> is_digit c \<Longrightarrow>
   concat (map (rx_match (Ahead Digit)) (rx_match (Star (Lit c)) s)) =
     (case dropWhile (\<lambda>x. x = c) s of
        [] \<Rightarrow> []
      | d # ds \<Rightarrow> if is_digit d then [d # ds] else [])"
proof (induction s)
  case Nil
  then show ?case by (simp add: star_lit_Nil del: rx_match.simps(5))
next
  case (Cons x xs)
  then show ?case by (simp add: star_lit_Cons del: rx_match.simps(5))
qed

lemma space_not_digit: "\<not> is_digit CHR '' ''"
  by (simp add: is_digit_def)

lemma opt_lit:
  "rx_match (Opt (Lit c)) s =
     (case s of [] \<Rightarrow> [[]] | x # xs \<Rightarrow> if x = c then [xs, s] else [s])"
  by (cases s) simp_all

lemma case_option_of_list:
  "(case (case xs of [] \<Rightarrow> None | d # ds \<Rightarrow> if P d then Some (d # ds) else None) of
      None \<Rightarrow> [] | Some r \<Rightarrow> [r]) =
   (case xs of [] \<Rightarrow> [] | d # ds \<Rightarrow> if P d then [d # ds] else [])"
  by (cases xs) simp_all

lemma match_spaces_then_digit:
  "rx_match (Cat (Plus (Lit CHR '' '')) (Ahead Digit)) t =
     (case spaces_then_digit t of None \<Rightarrow> [] | Some r \<Rightarrow> [r])"
proof (cases t)
  case Nil
  then show ?thesis by (simp add: Plus_def spaces_then_digit_def)
next
  case (Cons c cs)
  then show ?thesis
    using spaces_digit[OF space_not_digit, of cs]
    by (simp add: Plus_def spaces_then_digit_def case_option_of_list del: rx_match.simps(5))
qed

text \<open>The separator matches in at most one way, and \<open>sep_after\<close> says where it ends.\<close>

lemma match_separator:
  "rx_match rx_separator s = (case sep_after s of None \<Rightarrow> [] | Some r \<Rightarrow> [r])"
proof -
  define R where "R = Cat (Plus (Lit CHR '' '')) (Ahead Digit)"
  have sep: "rx_match rx_separator u =
      concat (map (rx_match R) (rx_match (Opt (Lit CHR '':'')) u))" for u
    by (simp add: rx_separator_def R_def)
  have R: "rx_match R t = (case spaces_then_digit t of None \<Rightarrow> [] | Some r \<Rightarrow> [r])" for t
    unfolding R_def by (rule match_spaces_then_digit)
  have colon: "spaces_then_digit (CHR '':'' # cs) = None" for cs
    by (simp add: spaces_then_digit_def)
  show ?thesis
  proof (cases s)
    case Nil
    then show ?thesis by (simp add: sep opt_lit R sep_after_def spaces_then_digit_def)
  next
    case (Cons c cs)
    then show ?thesis by (simp add: sep opt_lit R sep_after_def colon)
  qed
qed

lemma dropWhile_length: "length (dropWhile P xs) \<le> length xs"
  by (induction xs) auto

lemma spaces_then_digit_shorter:
  assumes "spaces_then_digit t = Some r"
  shows "length r < length t"
proof -
  from assms obtain c cs where "t = c # cs" and "r = dropWhile (\<lambda>x. x = CHR '' '') cs"
    by (auto simp: spaces_then_digit_def split: list.splits if_splits)
  then show ?thesis
    using dropWhile_length[of "\<lambda>x. x = CHR '' ''" cs] by simp
qed

lemma sep_after_shorter:
  assumes "sep_after s = Some r"
  shows "length r < length s"
  using assms spaces_then_digit_shorter[of s r] spaces_then_digit_shorter[of "tl s" r]
  by (auto simp: sep_after_def split: list.splits if_splits)

subsection \<open>The split and the fold\<close>

lemma split_separator:
  "rx_split rx_separator cur s =
     (case first_sep cur s of
        None \<Rightarrow> [cur @ s]
      | Some (a, b) \<Rightarrow> a # rx_split rx_separator [] b)"
proof (induction s arbitrary: cur)
  case Nil
  then show ?case by simp
next
  case (Cons c cs)
  show ?case
  proof (cases "sep_after (c # cs)")
    case None
    then show ?thesis using Cons[of "cur @ [c]"]
      by (simp add: match_separator split: option.splits)
  next
    case (Some r)
    then show ?thesis using sep_after_shorter[OF Some] by (simp add: match_separator)
  qed
qed

lemma split_entry:
  "to_key (piece (js_split rx_separator l) 0) = fst (line_entry l) \<and>
   piece (js_split rx_separator l) 1 = snd (line_entry l)"
proof -
  have js: "js_split rx_separator l = rx_split rx_separator [] l"
    by (cases l) (simp_all add: js_split_def match_separator sep_after_def)
  show ?thesis
  proof (cases "first_sep [] l")
    case None
    then show ?thesis
      by (simp add: js split_separator[of "[]" l] line_entry_def piece_def)
  next
    case (Some ab)
    obtain a b where ab: "ab = (a, b)" by (cases ab)
    show ?thesis
      using Some ab
      by (simp add: js split_separator[of "[]" l] split_separator[of "[]" b]
          line_entry_def piece_def split: option.splits)
  qed
qed

lemma reduce_step_entry:
  "reduce_step ob (js_split rx_separator l) =
     assign ob (fst (line_entry l)) (snd (line_entry l))"
  using split_entry[of l] by (simp add: reduce_step_def)

lemma foldl_reduce:
  "foldl reduce_step ob (map (js_split rx_separator) ls) =
   foldl (\<lambda>ob p. assign ob (fst p) (snd p)) ob (map line_entry ls)"
  by (induction ls arbitrary: ob) (simp_all add: reduce_step_entry)

lemma map_of_set_prop: "map_of (set_prop ps k v) = (map_of ps)(k \<mapsto> v)"
  by (induction ps k v rule: set_prop.induct) auto

lemma map_of_assign:
  "map_of (assign ob k v) =
     (if k = ''__proto__'' then map_of ob else (map_of ob)(k \<mapsto> v))"
  by (simp add: assign_def map_of_set_prop)

text \<open>After the fold, a key holds the value of the last pair that carries it.\<close>

lemma map_of_fold_assign:
  "map_of (foldl (\<lambda>ob p. assign ob (fst p) (snd p)) [] ps) k =
     (if k = ''__proto__'' then None
      else case filter (\<lambda>p. fst p = k) (rev ps) of
             [] \<Rightarrow> None
           | p # qs \<Rightarrow> Some (snd p))"
proof (induction ps rule: rev_induct)
  case Nil
  then show ?case by simp
next
  case (snoc p ps)
  show ?case
  proof (cases "k = ''__proto__''")
    case True
    with snoc show ?thesis by (simp add: map_of_assign)
  next
    case False
    with snoc show ?thesis by (simp add: map_of_assign)
  qed
qed

lemma first_of_mapped:
  "(case filter (\<lambda>p. fst p = k) (rev (map f ls)) of
      [] \<Rightarrow> None
    | p # qs \<Rightarrow> Some (snd p)) =
   (case filter (\<lambda>l. fst (f l) = k) (rev ls) of
      [] \<Rightarrow> None
    | l # qs \<Rightarrow> Some (snd (f l)))"
  by (simp add: rev_map filter_map comp_def split: list.splits)

subsection \<open>The lines of the input\<close>

lemma split_on_nonempty: "split_on sep cur s \<noteq> []"
  by (induction sep cur s rule: split_on.induct) auto

lemma join_with_Cons: "ys \<noteq> [] \<Longrightarrow> join_with sep (x # ys) = x @ sep @ join_with sep ys"
  by (cases ys) simp_all

text \<open>Joined by the separator, the pieces of a split give the text back.\<close>

lemma join_split: "sep \<noteq> [] \<Longrightarrow> join_with sep (split_on sep cur s) = cur @ s"
proof (induction sep cur s rule: split_on.induct)
  case (1 sep cur)
  then show ?case by simp
next
  case (2 sep cur c cs)
  show ?case
  proof (cases "prefix sep (c # cs)")
    case True
    then obtain r where r: "c # cs = sep @ r" by (auto simp: prefix_def)
    with 2(3) have d: "drop (length sep - 1) cs = r"
      by (cases sep) auto
    from 2(1)[OF True 2(3)] d have j: "join_with sep (split_on sep [] r) = r" by simp
    from True d have "split_on sep cur (c # cs) = cur # split_on sep [] r" by simp
    then have "join_with sep (split_on sep cur (c # cs)) = cur @ sep @ r"
      by (simp add: join_with_Cons split_on_nonempty j)
    with r show ?thesis by simp
  next
    case False
    with 2(2)[OF False 2(3)] show ?thesis by simp
  qed
qed

lemma sublist_pair_snoc:
  "sublist [a, b] (xs @ [c, d]) = (sublist [a, b] (xs @ [c]) \<or> (a = c \<and> b = d))"
proof (induction xs)
  case Nil
  then show ?case by (auto simp: sublist_Cons_right prefix_Cons)
next
  case (Cons x xs)
  have "prefix [b] (xs @ [c, d]) = prefix [b] (xs @ [c])"
    by (cases xs) (auto simp: prefix_Cons)
  with Cons show ?case
    by (auto simp: sublist_Cons_right prefix_Cons)
qed

text \<open>No piece of a split at CR LF holds a CR LF pair, provided none starts in the
  text gathered so far.\<close>

lemma lines_without_crlf:
  "\<not> sublist crlf (cur @ take 1 s) \<Longrightarrow> l \<in> set (split_on crlf cur s) \<Longrightarrow> \<not> sublist crlf l"
proof (induction crlf cur s rule: split_on.induct)
  case (1 cur)
  then show ?case by simp
next
  case (2 cur c cs)
  show ?case
  proof (cases "prefix crlf (c # cs)")
    case True
    have short: "\<not> sublist crlf ([] @ take 1 (drop (length crlf - 1) cs))"
      using sublist_length_le[of crlf "take 1 (drop (length crlf - 1) cs)"]
      by (auto simp: crlf_def)
    from 2(3) have cur: "\<not> sublist crlf cur"
      by (metis sublist_order.order.trans sublist_append_rightI)
    from 2(4) True have "l = cur \<or> l \<in> set (split_on crlf [] (drop (length crlf - 1) cs))"
      by simp
    with cur 2(1)[OF True short] show ?thesis by blast
  next
    case False
    have "\<not> sublist crlf ((cur @ [c]) @ take 1 cs)"
    proof (cases cs)
      case Nil
      with 2(3) show ?thesis by simp
    next
      case (Cons d ds)
      with False have "\<not> (CHR 0x0D = c \<and> CHR 0x0A = d)" by (auto simp: crlf_def)
      with 2(3) Cons show ?thesis
        using sublist_pair_snoc[of "CHR 0x0D" "CHR 0x0A" cur c d]
        by (simp add: crlf_def)
    qed
    with 2(2)[OF False] 2(4) False show ?thesis by simp
  qed
qed

lemma data_lines_join: "join_with crlf (data_lines d) = replace_first escaped_crlf crlf d"
  by (simp add: data_lines_def join_split crlf_def)

lemma data_lines_without_crlf: "l \<in> set (data_lines d) \<Longrightarrow> \<not> sublist crlf l"
proof -
  have "\<not> sublist crlf ([] @ take 1 (replace_first escaped_crlf crlf d))"
    using sublist_length_le[of crlf "take 1 (replace_first escaped_crlf crlf d)"]
    by (auto simp: crlf_def)
  then show "l \<in> set (data_lines d) \<Longrightarrow> \<not> sublist crlf l"
    unfolding data_lines_def by (rule lines_without_crlf)
qed

subsection \<open>The replacement\<close>

lemma replace_first_absent:
  "pat \<noteq> [] \<Longrightarrow> \<not> sublist pat s \<Longrightarrow> replace_first pat rep s = s"
  by (induction s) (auto simp: sublist_Cons_right)

lemma prefix_in_front:
  assumes "prefix pat (a @ pat @ b)" and "a \<noteq> []" and "pat \<noteq> []"
  shows "prefix pat (a @ butlast pat)"
proof -
  have "a @ pat @ b = (a @ butlast pat) @ ([last pat] @ b)"
    using assms(3) by simp
  moreover have "length pat \<le> length (a @ butlast pat)"
    using assms(2) by (cases a) auto
  ultimately show ?thesis
    using assms(1) by (metis prefix_length_prefix prefixI)
qed

text \<open>The occurrence replaced is the first: the one before which no occurrence
  starts.\<close>

lemma replace_first_at:
  "pat \<noteq> [] \<Longrightarrow> \<not> sublist pat (a @ butlast pat) \<Longrightarrow>
   replace_first pat rep (a @ pat @ b) = a @ rep @ b"
proof (induction a)
  case Nil
  then show ?case by (cases pat) auto
next
  case (Cons x a)
  from Cons.prems have np: "\<not> prefix pat ((x # a) @ pat @ b)"
    using prefix_in_front[of pat "x # a" b] by auto
  from Cons.prems have "\<not> sublist pat (a @ butlast pat)"
    by (auto simp: sublist_Cons_right)
  with Cons.IH Cons.prems(1) np show ?case by simp
qed

lemma entries_of_lines:
  "map_of (clean_data d) k =
     (if k = ''__proto__'' then None
      else case filter (\<lambda>l. fst (line_entry l) = k) (rev (filter line_kept (data_lines d))) of
             [] \<Rightarrow> None
           | l # ls \<Rightarrow> Some (snd (line_entry l)))"
  by (simp only: clean_data_def filter_keep foldl_reduce map_of_fold_assign first_of_mapped)

text \<open>
  C10 (as amended). For every input string \<open>d\<close> and key \<open>k\<close>: \<open>clean_data\<close> first
  replaces the first occurrence in \<open>d\<close> of the four characters backslash, \<open>r\<close>,
  backslash, \<open>n\<close> by CR LF (\<open>d\<close> is unchanged when there is none), and the lines are the
  pieces of the resulting text between its CR LF pairs: no line holds a CR LF pair,
  and the lines joined by CR LF are that text. The entry of \<open>k\<close> in \<open>clean_data d\<close> is
  decided by the lines that do not end with " 0" and whose last character is a decimal
  digit: no other line contributes. Among these, the last line whose key is \<open>k\<close>
  gives the value, so a later line overwrites an earlier one. The key of a line is the
  text before its first separator (a run of spaces before a digit, a colon before the
  run included) and its value the text between the first separator and the next one,
  or the end of the line; a line without a separator is its own key, with the value
  \<open>undefined\<close>. The key \<open>__proto__\<close> never gets an entry.
\<close>

theorem clean_data_entries:
  "map_of (clean_data d) k =
     (if k = ''__proto__'' then None
      else case filter (\<lambda>l. fst (line_entry l) = k) (rev (filter line_kept (data_lines d))) of
             [] \<Rightarrow> None
           | l # ls \<Rightarrow> Some (snd (line_entry l))) \<and>
   join_with crlf (data_lines d) = replace_first escaped_crlf crlf d \<and>
   (\<forall>l \<in> set (data_lines d). \<not> sublist crlf l) \<and>
   (\<not> sublist escaped_crlf d \<longrightarrow> replace_first escaped_crlf crlf d = d) \<and>
   (\<forall>a b. d = a @ escaped_crlf @ b \<and> \<not> sublist escaped_crlf (a @ butlast escaped_crlf) \<longrightarrow>
      replace_first escaped_crlf crlf d = a @ crlf @ b)"
proof -
  have ne: "escaped_crlf \<noteq> []" by (simp add: escaped_crlf_def)
  have "\<not> sublist escaped_crlf d \<longrightarrow> replace_first escaped_crlf crlf d = d"
    using replace_first_absent[OF ne] by blast
  moreover have "\<forall>a b. d = a @ escaped_crlf @ b \<and>
      \<not> sublist escaped_crlf (a @ butlast escaped_crlf) \<longrightarrow>
      replace_first escaped_crlf crlf d = a @ crlf @ b"
    using replace_first_at[OF ne] by blast
  moreover have "\<forall>l \<in> set (data_lines d). \<not> sublist crlf l"
    using data_lines_without_crlf by blast
  ultimately show ?thesis
    using entries_of_lines[of d k] data_lines_join[of d] by blast
qed

text \<open>
  An input with the four escape characters and no CR LF of its own: the replacement
  makes two lines of it, and only the first survives the filter.
\<close>

theorem clean_data_entries_witness:
  "\<not> sublist escaped_crlf (''a 1'' @ butlast escaped_crlf) \<and>
   replace_first escaped_crlf crlf (''a 1'' @ escaped_crlf @ ''b 0'') = ''a 1'' @ crlf @ ''b 0'' \<and>
   data_lines (''a 1'' @ escaped_crlf @ ''b 0'') = [''a 1'', ''b 0''] \<and>
   \<not> sublist crlf ''a 1'' \<and> \<not> sublist crlf ''b 0'' \<and>
   line_kept ''a 1'' \<and> \<not> line_kept ''b 0'' \<and>
   map_of (clean_data (''a 1'' @ escaped_crlf @ ''b 0'')) ''a'' = Some (JStr ''1'') \<and>
   map_of (clean_data (''a 1'' @ escaped_crlf @ ''b 0'')) ''b'' = None"
proof -
  have n: "\<not> sublist escaped_crlf (''a 1'' @ butlast escaped_crlf)"
    by code_simp
  have r: "replace_first escaped_crlf crlf (''a 1'' @ escaped_crlf @ ''b 0'') =
      ''a 1'' @ crlf @ ''b 0''"
    using clean_data_entries[of "''a 1'' @ escaped_crlf @ ''b 0''" "''a''"] n by blast
  have ls: "data_lines (''a 1'' @ escaped_crlf @ ''b 0'') = [''a 1'', ''b 0'']"
    by code_simp
  have nl: "\<not> sublist crlf ''a 1'' \<and> \<not> sublist crlf ''b 0''"
    using clean_data_entries[of "''a 1'' @ escaped_crlf @ ''b 0''" "''a''"] ls by simp
  have k: "line_kept ''a 1'' \<and> \<not> line_kept ''b 0''"
    by code_simp
  have e: "map_of (clean_data (''a 1'' @ escaped_crlf @ ''b 0'')) ''a'' = Some (JStr ''1'') \<and>
      map_of (clean_data (''a 1'' @ escaped_crlf @ ''b 0'')) ''b'' = None"
    by code_simp
  from n r ls nl k e show ?thesis by blast
qed

text \<open>
  C10 as stated fails on the value: the line \<open>x 1 2\<close> survives the filter and its first
  separator is followed by \<open>1 2\<close>, yet the value stored for \<open>x\<close> is \<open>1\<close>, since the line
  is split at its second separator too.
\<close>

theorem clean_data_value_counterexample:
  "keep_line ''x 1 2'' \<and>
   spec_line_entry ''x 1 2'' = Some (''x'', JStr ''1 2'') \<and>
   clean_data ''x 1 2'' = [(''x'', JStr ''1'')]"
  by code_simp

section \<open>Properties of \<open>Solve\<close>\<close>

lemma entries_keys:
  assumes "distinct (map fst vars)" and "(var, combo) \<in> set vars"
  shows "(var \<in> fst ` set (variable_entries p f x vars)) =
         included p f (assembled_value x combo)"
proof
  assume "var \<in> fst ` set (variable_entries p f x vars)"
  then obtain c where c: "(var, c) \<in> set vars" and inc: "included p f (assembled_value x c)"
    by (auto simp: variable_entries_def)
  from assms c have "c = combo" by (meson eq_key_imp_eq_value)
  with inc show "included p f (assembled_value x combo)" by simp
next
  assume "included p f (assembled_value x combo)"
  with assms(2) have "(var, assembled_value x combo) \<in> set (variable_entries p f x vars)"
    by (auto simp: variable_entries_def intro!: image_eqI[where x = "(var, combo)"])
  then show "var \<in> fst ` set (variable_entries p f x vars)"
    by (rule image_eqI[rotated]) simp
qed

lemma Solve_entries:
  assumes "Solve V E m p f v st = (Inr sol, st')"
  shows "entries sol = variable_entries p f (x_std (E m p)) (variables m)"
proof (cases "if v then V m else None")
  case None
  with assms have "sol = assemble m p f (E m p)"
    by (simp add: Solve_def)
  then show ?thesis by (simp add: assemble_def)
next
  case (Some err)
  with assms show ?thesis by (simp add: Solve_def)
qed

text \<open>
  C5. When \<open>Solve\<close> returns a Solution for a model whose solution variables are
  declared once each, the Solution has an entry for a declared variable if and only
  if the magnitude of its assembled value exceeds \<open>precision\<close>, or \<open>full\<close> is true and
  the variable is zero-valued.
\<close>

theorem Solve_entry_iff:
  assumes "Solve V E m p f v st = (Inr sol, st')"
    and "distinct (map fst (variables m))" and "(var, combo) \<in> set (variables m)"
  shows "(var \<in> fst ` set (entries sol)) =
     (p < \<bar>assembled_value (x_std (E m p)) combo\<bar> \<or>
      (f \<and> zero_valued p (assembled_value (x_std (E m p)) combo)))"
  unfolding Solve_entries[OF assms(1)] entries_keys[OF assms(2,3)] included_def ..

text \<open>On the small model with \<open>full\<close> false, \<open>x\<close> (value 6) has an entry.\<close>

theorem Solve_entry_iff_witness:
  "Solve (\<lambda>m. None) small_engine small_model (1 / 10 ^ 9) False False earlier_state =
     (Inr (assemble small_model (1 / 10 ^ 9) False
             (small_engine small_model (1 / 10 ^ 9))),
      earlier_state\<lparr>lastSolvedModel := small_model\<rparr>) \<and>
   distinct (map fst (variables small_model)) \<and>
   (''x'', [(''x'', 1)]) \<in> set (variables small_model) \<and>
   ''x'' \<in> fst ` set (entries (assemble small_model (1 / 10 ^ 9) False
                               (small_engine small_model (1 / 10 ^ 9))))"
proof -
  have h1: "Solve (\<lambda>m. None) small_engine small_model (1 / 10 ^ 9) False False earlier_state =
     (Inr (assemble small_model (1 / 10 ^ 9) False
             (small_engine small_model (1 / 10 ^ 9))),
      earlier_state\<lparr>lastSolvedModel := small_model\<rparr>)"
    by (simp add: Solve_def)
  have h2: "distinct (map fst (variables small_model))"
    by (simp add: small_model_def)
  have h3: "(''x'', [(''x'', 1)]) \<in> set (variables small_model)"
    by (simp add: small_model_def)
  have "''x'' \<in> fst ` set (entries (assemble small_model (1 / 10 ^ 9) False
                               (small_engine small_model (1 / 10 ^ 9))))"
    unfolding Solve_entry_iff[OF h1 h2 h3]
    by (simp add: small_engine_def assembled_value_def)
  with h1 h2 h3 show ?thesis by simp
qed

text \<open>
  C7. When \<open>Solve\<close> returns a Solution, \<open>lastSolvedModel\<close> is the input model afterwards,
  whatever it held before; when \<open>Solve\<close> raises an error, the state is the one before
  the call.
\<close>

theorem Solve_lastSolvedModel:
  "(Solve V E m p f v st = (Inr sol, st') \<longrightarrow> lastSolvedModel st' = m) \<and>
   (Solve V E m p f v st = (Inl err, st') \<longrightarrow> st' = st)"
  by (auto simp: Solve_def split: option.splits if_splits)

text \<open>A successful call stores the small model over the earlier one; a call whose
  validation fails leaves the earlier one.\<close>

theorem Solve_lastSolvedModel_witness:
  "lastSolvedModel (snd (Solve (\<lambda>m. None) small_engine small_model (1 / 10 ^ 9) False True
                           earlier_state)) = small_model \<and>
   Solve (\<lambda>m. Some (ValidationError MissingObjective)) small_engine small_model (1 / 10 ^ 9)
     False True earlier_state = (Inl (ValidationError MissingObjective), earlier_state)"
proof -
  have ok: "Solve (\<lambda>m. None) small_engine small_model (1 / 10 ^ 9) False True earlier_state =
     (Inr (assemble small_model (1 / 10 ^ 9) False
             (small_engine small_model (1 / 10 ^ 9))),
      earlier_state\<lparr>lastSolvedModel := small_model\<rparr>)"
    by (simp add: Solve_def)
  have err: "Solve (\<lambda>m. Some (ValidationError MissingObjective)) small_engine small_model
      (1 / 10 ^ 9) False True earlier_state = (Inl (ValidationError MissingObjective), earlier_state)"
    by (simp add: Solve_def)
  from Solve_lastSolvedModel
    [where V = "\<lambda>m. None" and E = small_engine and m = small_model and p = "1 / 10 ^ 9"
       and f = False and v = True and st = earlier_state
       and st' = "earlier_state\<lparr>lastSolvedModel := small_model\<rparr>"
       and sol = "assemble small_model (1 / 10 ^ 9) False
                    (small_engine small_model (1 / 10 ^ 9))"]
    ok err
  show ?thesis by simp
qed

end
